theory Spec2Isabelle
  imports Main "HOL-Library.Word" "HOL-Library.Char_ord" "HOL-Library.List_Lexorder"
    "HOL-Library.AList"
begin

unbundle bit_operations_syntax

section \<open>Value model (types.ts)\<close>

text \<open>
  Entry data is declared \<^verbatim>\<open>Record<string, any>\<close>. The values the application stores are
  strings, numbers (IEEE doubles, kept here as their 64-bit pattern), booleans, \<^verbatim>\<open>null\<close>,
  point objects and arrays of point objects; a missing key reads as \<^verbatim>\<open>undefined\<close>.
  A JavaScript string is a \<open>string\<close>, one \<open>char\<close> per code unit, so \<^verbatim>\<open>.length\<close> is \<open>length\<close>.
\<close>

datatype jsval =
    JUndefined
  | JNull
  | JBool bool
  | JNum "64 word"
  | JStr string
  | JArr "jsval list"
  | JObj "(string \<times> jsval) list"

datatype FieldType = Text | Number | Datetime | Location | Polygon | Image | Boolean

text \<open>
  The three interfaces all have a field \<^verbatim>\<open>id\<close> (and \<^verbatim>\<open>name\<close>, \<^verbatim>\<open>createdAt\<close>); the record fields
  carry a prefix \<open>f_\<close>, \<open>c_\<close>, \<open>e_\<close> to keep them apart. Timestamps are the integer
  milliseconds that \<^verbatim>\<open>Date.now()\<close> returns.
\<close>

record FieldDefinition =
  f_id :: string
  f_name :: string
  f_type :: FieldType
  f_required :: bool

record Campaign =
  c_id :: string
  c_name :: string
  c_description :: string
  c_fields :: "FieldDefinition list"
  c_spreadsheetId :: "string option"
  c_createdAt :: int

record Entry =
  e_id :: string
  e_campaignId :: string
  e_data :: "(string \<times> jsval) list"
  e_synced :: bool
  e_createdAt :: int
  e_updatedAt :: int

subsection \<open>The JavaScript operators the code uses on values\<close>

text \<open>A double is falsy when it is \<open>+0\<close>, \<open>-0\<close> or a NaN.\<close>

definition num_falsy :: "64 word \<Rightarrow> bool" where
  "num_falsy w =
     (let m = w AND 0x7FFFFFFFFFFFFFFF in m = 0 \<or> 0x7FF0000000000000 < m)"

fun falsy :: "jsval \<Rightarrow> bool" where
  "falsy JUndefined = True"
| "falsy JNull = True"
| "falsy (JBool b) = (\<not> b)"
| "falsy (JNum w) = num_falsy w"
| "falsy (JStr s) = (s = [])"
| "falsy (JArr xs) = False"
| "falsy (JObj kvs) = False"

text \<open>\<^verbatim>\<open>a || b\<close>\<close>

definition js_or :: "jsval \<Rightarrow> jsval \<Rightarrow> jsval" where
  "js_or a b = (if falsy a then b else a)"

text \<open>
  \<^verbatim>\<open>obj[key]\<close> on a plain data object: the stored value, or \<^verbatim>\<open>undefined\<close>. On a string, a
  number, a boolean or an array a key such as \<^verbatim>\<open>latitude\<close> is \<^verbatim>\<open>undefined\<close> too. (The code
  reads members only of values it has checked to be neither \<^verbatim>\<open>null\<close> nor \<^verbatim>\<open>undefined\<close>.)
\<close>

definition data_get :: "(string \<times> jsval) list \<Rightarrow> string \<Rightarrow> jsval" where
  "data_get d k = (case map_of d k of None \<Rightarrow> JUndefined | Some v \<Rightarrow> v)"

fun get_member :: "jsval \<Rightarrow> string \<Rightarrow> jsval" where
  "get_member (JObj kvs) k = data_get kvs k"
| "get_member v k = JUndefined"

fun join_comma :: "string list \<Rightarrow> string" where
  "join_comma [] = []"
| "join_comma [s] = s"
| "join_comma (s # t # ss) = s @ '','' @ join_comma (t # ss)"

text \<open>
  The platform functions whose output format is fixed by the language standard and not by
  this repository: the text of a number (\<^verbatim>\<open>String(n)\<close>) and the text of a valid time value
  (\<^verbatim>\<open>Date.prototype.toISOString\<close>).
\<close>

record platform =
  number_text :: "64 word \<Rightarrow> string"
  iso_text :: "int \<Rightarrow> string"

text \<open>\<^verbatim>\<open>String(v)\<close>, which is also what a template literal applies to each hole.\<close>

fun js_String :: "platform \<Rightarrow> jsval \<Rightarrow> string" where
  "js_String p JUndefined = ''undefined''"
| "js_String p JNull = ''null''"
| "js_String p (JBool b) = (if b then ''true'' else ''false'')"
| "js_String p (JNum w) = number_text p w"
| "js_String p (JStr s) = s"
| "js_String p (JArr xs) =
     join_comma (map (\<lambda>x. if x = JUndefined \<or> x = JNull then [] else js_String p x) xs)"
| "js_String p (JObj kvs) = ''[object Object]''"

datatype failure =
    RangeError
  | InitFailed
  | AuthFailed
  | CreateFailed
  | ReadHeaderFailed
  | WriteHeaderFailed
  | AppendFailed
  | StoreFailed

text \<open>
  \<^verbatim>\<open>new Date(t).toISOString()\<close> throws a RangeError when \<open>t\<close> is outside the range of time
  values, 8.64e15 milliseconds either side of the epoch.
\<close>

definition toISOString :: "platform \<Rightarrow> int \<Rightarrow> failure + string" where
  "toISOString p t =
     (if \<bar>t\<bar> \<le> 8640000000000000 then Inr (iso_text p t) else Inl RangeError)"

section \<open>Row serializer (services/googleService.ts)\<close>


text \<open>The callback of \<^verbatim>\<open>campaign.fields.map\<close> in \<^verbatim>\<open>syncEntries\<close>.\<close>

definition fieldCell :: "platform \<Rightarrow> Entry \<Rightarrow> FieldDefinition \<Rightarrow> jsval" where
  "fieldCell p entry field =
     (let val = data_get (e_data entry) (f_id field) in
      if val = JUndefined \<or> val = JNull then JStr ''''
      else if f_type field = Image then
        (case val of
           JStr s \<Rightarrow> if 40000 < length s then JStr ''(Image too large for Sheet Cell)'' else val
         | _ \<Rightarrow> val)
      else if f_type field = Location then
        JStr (js_String p (get_member val ''latitude'') @ '','' @
              js_String p (get_member val ''longitude''))
      else JStr (js_String p val))"

text \<open>The callback of \<^verbatim>\<open>entries.map\<close>: the five leading cells, then one cell per field.\<close>

definition entryRow :: "platform \<Rightarrow> Campaign \<Rightarrow> Entry \<Rightarrow> failure + jsval list" where
  "entryRow p campaign entry =
     (case toISOString p (e_createdAt entry) of
        Inl err \<Rightarrow> Inl err
      | Inr created \<Rightarrow>
          Inr ([JStr (e_id entry),
                JStr created,
                js_or (data_get (e_data entry) ''__loc_lat'') (JStr ''''),
                js_or (data_get (e_data entry) ''__loc_lng'') (JStr ''''),
                js_or (data_get (e_data entry) ''__loc_acc'') (JStr '''')]
               @ map (fieldCell p entry) (c_fields campaign)))"


section \<open>Local persistent store (db.ts)\<close>

subsection \<open>IndexedDB object stores with an in-line key\<close>

text \<open>
  Both object stores are created with \<^verbatim>\<open>keyPath: 'id'\<close>: the key of a record is read from the
  record. An object store is the list of its records in ascending key order; \<open>kf\<close> is the
  key path.
\<close>

definition os_get :: "('v \<Rightarrow> string) \<Rightarrow> string \<Rightarrow> 'v list \<Rightarrow> 'v option" where
  "os_get kf k xs = find (\<lambda>x. kf x = k) xs"

text \<open>\<^verbatim>\<open>put\<close> replaces the record stored under the key, or inserts a new one at its place.\<close>

definition os_put :: "('v \<Rightarrow> string) \<Rightarrow> 'v \<Rightarrow> 'v list \<Rightarrow> 'v list" where
  "os_put kf v xs =
     (if kf v \<in> set (map kf xs) then map (\<lambda>x. if kf x = kf v then v else x) xs
      else insort_key kf v xs)"

definition os_delete :: "('v \<Rightarrow> string) \<Rightarrow> string \<Rightarrow> 'v list \<Rightarrow> 'v list" where
  "os_delete kf k xs = filter (\<lambda>x. kf x \<noteq> k) xs"

text \<open>Keys are unique and records are kept in key order.\<close>

definition os_wf :: "('v \<Rightarrow> string) \<Rightarrow> 'v list \<Rightarrow> bool" where
  "os_wf kf xs = (sorted (map kf xs) \<and> distinct (map kf xs))"

record db =
  campaigns :: "Campaign list"
  entries :: "Entry list"

definition wf_db :: "db \<Rightarrow> bool" where
  "wf_db s = (os_wf c_id (campaigns s) \<and> os_wf e_id (entries s))"

text \<open>
  The index \<^verbatim>\<open>campaignId\<close> on the entries: \<^verbatim>\<open>getAll(k)\<close> returns the records with that
  campaign id, \<^verbatim>\<open>getAllKeys(k)\<close> their primary keys, both in primary key order.
\<close>

definition index_getAll :: "string \<Rightarrow> Entry list \<Rightarrow> Entry list" where
  "index_getAll cid xs = filter (\<lambda>e. e_campaignId e = cid) xs"

definition index_getAllKeys :: "string \<Rightarrow> Entry list \<Rightarrow> string list" where
  "index_getAllKeys cid xs = map e_id (index_getAll cid xs)"

subsection \<open>Transactions\<close>

text \<open>
  The requests of a transaction work on a copy of the database that no other transaction
  sees. When every request has succeeded the transaction commits and the copy becomes the
  database; a request that fails aborts the transaction, and the database stays as it was
  before the transaction began. A simulated fault is the number of the request that
  fails, counting from 0 in the order the call places its requests (\<open>None\<close>: no request
  fails).

  How the body of a call ends: all its requests succeeded; a request failed and a handler
  of the call rejects its promise; or a request failed that the call has no handler for, so
  that its promise never settles.
\<close>

datatype body_end = BodyDone | BodyRejected | BodyStuck

datatype outcome = Resolved | Rejected | Pending

definition transaction :: "db \<Rightarrow> body_end \<times> db \<Rightarrow> outcome \<times> db" where
  "transaction s r =
     (case r of
        (BodyDone, working) \<Rightarrow> (Resolved, working)
      | (BodyRejected, working) \<Rightarrow> (Rejected, s)
      | (BodyStuck, working) \<Rightarrow> (Pending, s))"

subsection \<open>Operations\<close>

definition saveCampaign :: "nat option \<Rightarrow> Campaign \<Rightarrow> db \<Rightarrow> outcome \<times> db" where
  "saveCampaign fault campaign s =
     transaction s
       (if fault = Some 0 then (BodyRejected, s)
        else (BodyDone, s\<lparr>campaigns := os_put c_id campaign (campaigns s)\<rparr>))"

text \<open>
  \<^verbatim>\<open>keys.forEach(key => entryStore.delete(key))\<close>: one request per key, numbered from \<open>n\<close>.
\<close>

fun delete_keys :: "nat option \<Rightarrow> nat \<Rightarrow> string list \<Rightarrow> db \<Rightarrow> body_end \<times> db" where
  "delete_keys fault n [] w = (BodyDone, w)"
| "delete_keys fault n (key # keys) w =
     (if fault = Some n then (BodyRejected, w)
      else delete_keys fault (Suc n) keys (w\<lparr>entries := os_delete e_id key (entries w)\<rparr>))"

text \<open>
  One transaction over both object stores. Request 0 deletes the campaign, request 1 reads
  the keys of its entries from the index, and its success handler places one delete per
  key. \<^verbatim>\<open>tx.onerror\<close> is set before any request runs, so every failure rejects.
\<close>

definition deleteCampaign :: "nat option \<Rightarrow> string \<Rightarrow> db \<Rightarrow> outcome \<times> db" where
  "deleteCampaign fault ident s =
     transaction s
       (if fault = Some 0 then (BodyRejected, s)
        else
          let w = s\<lparr>campaigns := os_delete c_id ident (campaigns s)\<rparr> in
          if fault = Some 1 then (BodyRejected, w)
          else delete_keys fault 2 (index_getAllKeys ident (entries w)) w)"

definition getCampaigns :: "db \<Rightarrow> Campaign list" where
  "getCampaigns s = campaigns s"

definition getCampaign :: "string \<Rightarrow> db \<Rightarrow> Campaign option" where
  "getCampaign ident s = os_get c_id ident (campaigns s)"

definition saveEntry :: "nat option \<Rightarrow> Entry \<Rightarrow> db \<Rightarrow> outcome \<times> db" where
  "saveEntry fault entry s =
     transaction s
       (if fault = Some 0 then (BodyRejected, s)
        else (BodyDone, s\<lparr>entries := os_put e_id entry (entries s)\<rparr>))"

definition deleteEntry :: "nat option \<Rightarrow> string \<Rightarrow> db \<Rightarrow> outcome \<times> db" where
  "deleteEntry fault ident s =
     transaction s
       (if fault = Some 0 then (BodyRejected, s)
        else (BodyDone, s\<lparr>entries := os_delete e_id ident (entries s)\<rparr>))"

text \<open>
  \<^verbatim>\<open>req.result.sort((a, b) => b.createdAt - a.createdAt)\<close>: newest first; the sort is stable.
\<close>

definition getEntries :: "string \<Rightarrow> db \<Rightarrow> Entry list" where
  "getEntries campaignId s =
     sort_key (\<lambda>e. - e_createdAt e) (index_getAll campaignId (entries s))"


text \<open>
  The loop of \<^verbatim>\<open>markSynced\<close>: for each id a \<^verbatim>\<open>get\<close> request and, when a record came back, a
  \<^verbatim>\<open>put\<close> request of the record with \<^verbatim>\<open>synced = true\<close>. A failing \<^verbatim>\<open>get\<close> rejects through
  \<^verbatim>\<open>getReq.onerror\<close>. The \<^verbatim>\<open>put\<close> has a success handler only, and \<^verbatim>\<open>tx.onerror\<close> is set after
  the loop: when a \<^verbatim>\<open>put\<close> fails the transaction aborts and the awaited promise never
  settles.
\<close>

fun markSynced_loop :: "nat option \<Rightarrow> nat \<Rightarrow> string list \<Rightarrow> db \<Rightarrow> body_end \<times> db" where
  "markSynced_loop fault n [] w = (BodyDone, w)"
| "markSynced_loop fault n (ident # ids) w =
     (if fault = Some n then (BodyRejected, w)
      else
        (case os_get e_id ident (entries w) of
           None \<Rightarrow> markSynced_loop fault (Suc n) ids w
         | Some entry \<Rightarrow>
             if fault = Some (Suc n) then (BodyStuck, w)
             else markSynced_loop fault (Suc (Suc n)) ids
                    (w\<lparr>entries := os_put e_id (entry\<lparr>e_synced := True\<rparr>) (entries w)\<rparr>)))"

definition markSynced :: "nat option \<Rightarrow> string list \<Rightarrow> db \<Rightarrow> outcome \<times> db" where
  "markSynced fault entryIds s = transaction s (markSynced_loop fault 0 entryIds s)"

section \<open>Remote sink (the Sheets calls of services/googleService.ts)\<close>














section \<open>Campaign dashboard (App.tsx)\<close>











section \<open>Notions of the specification\<close>

text \<open>
  The batch transition as the specification words it: every record whose id is in the
  batch has \<open>synced = true\<close>, everything else is as it was.
\<close>

definition spec_markSynced :: "string list \<Rightarrow> Entry list \<Rightarrow> Entry list" where
  "spec_markSynced ids xs =
     map (\<lambda>e. if e_id e \<in> set ids then e\<lparr>e_synced := True\<rparr> else e) xs"







section \<open>Worked example\<close>

text \<open>
  The scenario of the specification: a campaign with one text field \<open>Note\<close> and two entries,
  \<open>E1\<close> not yet synced and \<open>E2\<close> synced. The examples do not depend on how the platform
  renders numbers and time values; this one renders each as a fixed text.
\<close>

definition sample_platform :: platform where
  "sample_platform =
     \<lparr> number_text = (\<lambda>w. ''0''), iso_text = (\<lambda>t. ''1970-01-01T00:00:02.000Z'') \<rparr>"

definition sample_campaign :: Campaign where
  "sample_campaign =
     \<lparr> c_id = ''c1'', c_name = ''Survey'', c_description = [],
       c_fields = [\<lparr> f_id = ''f1'', f_name = ''Note'', f_type = Text, f_required = False \<rparr>],
       c_spreadsheetId = Some ''sheet1'', c_createdAt = 1000 \<rparr>"

definition sample_E1 :: Entry where
  "sample_E1 =
     \<lparr> e_id = ''e1'', e_campaignId = ''c1'', e_data = [(''f1'', JStr ''hello'')],
       e_synced = False, e_createdAt = 2000, e_updatedAt = 2000 \<rparr>"

definition sample_E2 :: Entry where
  "sample_E2 =
     \<lparr> e_id = ''e2'', e_campaignId = ''c1'', e_data = [(''f1'', JStr ''world'')],
       e_synced = True, e_createdAt = 2000, e_updatedAt = 2000 \<rparr>"

definition sample_db :: db where
  "sample_db = \<lparr> campaigns = [sample_campaign], entries = [sample_E1, sample_E2] \<rparr>"






text \<open>An entry with one image field, for the size guard.\<close>

definition image_campaign :: Campaign where
  "image_campaign =
     \<lparr> c_id = ''c2'', c_name = ''Photos'', c_description = [],
       c_fields = [\<lparr> f_id = ''img'', f_name = ''Photo'', f_type = Image, f_required = False \<rparr>],
       c_spreadsheetId = None, c_createdAt = 1000 \<rparr>"

definition image_entry :: "nat \<Rightarrow> Entry" where
  "image_entry n =
     \<lparr> e_id = ''e3'', e_campaignId = ''c2'', e_data = [(''img'', JStr (replicate n CHR ''A''))],
       e_synced = False, e_createdAt = 2000, e_updatedAt = 2000 \<rparr>"

text \<open>An entry captured on the equator: latitude 0, longitude 75 (as doubles).\<close>

definition equator_entry :: Entry where
  "equator_entry =
     \<lparr> e_id = ''e4'', e_campaignId = ''c1'',
       e_data = [(''__loc_lat'', JNum 0), (''__loc_lng'', JNum 0x4052C00000000000),
                 (''__loc_acc'', JNum 0x4014000000000000), (''f1'', JStr ''buoy'')],
       e_synced = False, e_createdAt = 2000, e_updatedAt = 2000 \<rparr>"



definition synced_db :: db where
  "synced_db = sample_db\<lparr>entries := [sample_E1\<lparr>e_synced := True\<rparr>, sample_E2]\<rparr>"




section \<open>Object store lemmas\<close>

lemma os_get_None_iff: "os_get kf k xs = None \<longleftrightarrow> k \<notin> set (map kf xs)"
  by (auto simp: os_get_def find_None_iff)

lemma os_get_SomeD: "os_get kf k xs = Some x \<Longrightarrow> x \<in> set xs \<and> kf x = k"
  by (auto simp: os_get_def find_Some_iff)

lemma os_get_distinct:
  "distinct (map kf xs) \<Longrightarrow> x \<in> set xs \<Longrightarrow> os_get kf (kf x) xs = Some x"
  unfolding os_get_def by (induction xs) auto

lemma os_get_delete:
  "os_get kf k (os_delete kf k' xs) = (if k = k' then None else os_get kf k xs)"
  unfolding os_get_def os_delete_def by (induction xs) auto



lemma map_insort_key: "map kf (insort_key kf v xs) = insort (kf v) (map kf xs)"
  by (induction xs) auto

lemma os_wf_put: "os_wf kf xs \<Longrightarrow> os_wf kf (os_put kf v xs)"
proof (cases "kf v \<in> set (map kf xs)")
  case True
  assume wf: "os_wf kf xs"
  have "map kf (map (\<lambda>x. if kf x = kf v then v else x) xs) = map kf xs"
    by (induction xs) auto
  with wf True show ?thesis by (simp add: os_wf_def os_put_def del: map_map)
next
  case False
  assume wf: "os_wf kf xs"
  with False show ?thesis
    by (simp add: os_wf_def os_put_def map_insort_key sorted_insort distinct_insort del: map_map)
qed

lemma os_wf_delete: "os_wf kf xs \<Longrightarrow> os_wf kf (os_delete kf k xs)"
  unfolding os_wf_def os_delete_def
  by (simp add: sorted_map sorted_wrt_filter distinct_map_filter)

lemma wf_db_distinct: "wf_db s \<Longrightarrow> distinct (map e_id (entries s))"
  by (simp add: wf_db_def os_wf_def)

section \<open>The batch of markSynced\<close>

lemma spec_markSynced_keys: "map e_id (spec_markSynced ids xs) = map e_id xs"
  by (simp add: spec_markSynced_def)

lemma spec_markSynced_idem:
  "spec_markSynced ids (spec_markSynced ids xs) = spec_markSynced ids xs"
  by (simp add: spec_markSynced_def)

lemma mark_one_absent:
  "ident \<notin> set (map e_id xs) \<Longrightarrow> spec_markSynced (ident # ids) xs = spec_markSynced ids xs"
  by (auto simp: spec_markSynced_def)

lemma mark_one_present:
  assumes "distinct (map e_id xs)" and "os_get e_id ident xs = Some entry"
  shows "spec_markSynced ids (os_put e_id (entry\<lparr>e_synced := True\<rparr>) xs)
           = spec_markSynced (ident # ids) xs"
proof -
  from assms(2) have mem: "entry \<in> set xs" and key: "e_id entry = ident"
    using os_get_SomeD by fastforce+
  have same: "\<And>x. x \<in> set xs \<Longrightarrow> e_id x = ident \<Longrightarrow> x = entry"
    using assms(1) mem key by (metis distinct_map inj_onD)
  from mem key have "os_put e_id (entry\<lparr>e_synced := True\<rparr>) xs =
      map (\<lambda>x. if e_id x = ident then entry\<lparr>e_synced := True\<rparr> else x) xs"
    by (auto simp: os_put_def)
  also have "\<dots> = map (\<lambda>x. if e_id x = ident then x\<lparr>e_synced := True\<rparr> else x) xs"
    using same by auto
  finally show ?thesis
    by (auto simp: spec_markSynced_def)
qed

lemma put_keys:
  assumes "os_get e_id ident xs = Some entry"
  shows "map e_id (os_put e_id (entry\<lparr>e_synced := True\<rparr>) xs) = map e_id xs"
proof -
  from assms have "entry \<in> set xs" using os_get_SomeD by fastforce
  then show ?thesis by (auto simp: os_put_def)
qed

lemma markSynced_loop_done:
  "distinct (map e_id (entries w)) \<Longrightarrow> markSynced_loop fault n ids w = (BodyDone, w') \<Longrightarrow>
     w' = w\<lparr>entries := spec_markSynced ids (entries w)\<rparr>"
proof (induction ids arbitrary: n w)
  case Nil
  then show ?case by (simp add: spec_markSynced_def)
next
  case (Cons ident ids)
  from Cons.prems(2) have nofault: "fault \<noteq> Some n"
    by (auto split: if_splits)
  show ?case
  proof (cases "os_get e_id ident (entries w)")
    case None
    with Cons.prems(2) nofault have "markSynced_loop fault (Suc n) ids w = (BodyDone, w')"
      by simp
    from Cons.IH[OF Cons.prems(1) this] None show ?thesis
      by (simp add: mark_one_absent os_get_None_iff del: set_map)
  next
    case (Some entry)
    let ?w1 = "w\<lparr>entries := os_put e_id (entry\<lparr>e_synced := True\<rparr>) (entries w)\<rparr>"
    from Cons.prems(2) nofault Some
    have run: "markSynced_loop fault (Suc (Suc n)) ids ?w1 = (BodyDone, w')"
      by (auto split: if_splits)
    have "distinct (map e_id (entries ?w1))"
      using Cons.prems(1) put_keys[OF Some] by simp
    from Cons.IH[OF this run] show ?thesis
      using mark_one_present[OF Cons.prems(1) Some] by simp
  qed
qed

lemma markSynced_loop_no_fault: "fst (markSynced_loop None n ids w) = BodyDone"
  by (induction ids arbitrary: n w) (auto split: option.splits)

lemma markSynced_cases:
  assumes "distinct (map e_id (entries s))"
  shows "markSynced fault ids s = (Resolved, s\<lparr>entries := spec_markSynced ids (entries s)\<rparr>)
       \<or> markSynced fault ids s = (Rejected, s)
       \<or> markSynced fault ids s = (Pending, s)"
proof (cases "markSynced_loop fault 0 ids s")
  case (Pair b w')
  then show ?thesis
    using markSynced_loop_done[OF assms, of fault 0 ids w']
    by (cases b) (simp_all add: markSynced_def transaction_def)
qed

lemma markSynced_no_fault:
  assumes "distinct (map e_id (entries s))"
  shows "markSynced None ids s = (Resolved, s\<lparr>entries := spec_markSynced ids (entries s)\<rparr>)"
proof (cases "markSynced_loop None 0 ids s")
  case (Pair b w')
  with markSynced_loop_no_fault[of 0 ids s] have "b = BodyDone" by simp
  with Pair show ?thesis
    using markSynced_loop_done[OF assms, of None 0 ids w']
    by (simp add: markSynced_def transaction_def)
qed

lemma os_get_spec_markSynced:
  "os_get e_id k (spec_markSynced ids xs) =
     map_option (\<lambda>e. if k \<in> set ids then e\<lparr>e_synced := True\<rparr> else e) (os_get e_id k xs)"
  unfolding os_get_def spec_markSynced_def by (induction xs) auto

lemma sample_db_wf: "wf_db sample_db"
  by (simp add: wf_db_def os_wf_def sample_db_def sample_campaign_def sample_E1_def
      sample_E2_def)

text \<open>
  Claim C4. On a store with unique keys, \<^verbatim>\<open>markSynced\<close> with any list of ids resolves, and a
  second call with the same ids resolves and leaves the store as the first call left it.
  After the call every id of the list that is in the store has \<open>synced = true\<close>; an id
  that is not in the store is skipped, it raises nothing and it is still not in the store.
\<close>

theorem markSynced_idempotent:
  assumes "wf_db s"
  shows "\<exists>s1. markSynced None ids s = (Resolved, s1) \<and> markSynced None ids s1 = (Resolved, s1)
           \<and> (\<forall>ident \<in> set ids.
                 case os_get e_id ident (entries s) of
                   None \<Rightarrow> os_get e_id ident (entries s1) = None
                 | Some e \<Rightarrow> os_get e_id ident (entries s1) = Some (e\<lparr>e_synced := True\<rparr>))"
proof -
  let ?s1 = "s\<lparr>entries := spec_markSynced ids (entries s)\<rparr>"
  have d: "distinct (map e_id (entries s))" using assms by (rule wf_db_distinct)
  have once: "markSynced None ids s = (Resolved, ?s1)"
    by (rule markSynced_no_fault[OF d])
  have d1: "distinct (map e_id (entries ?s1))"
    using d by (simp add: spec_markSynced_keys)
  have twice: "markSynced None ids ?s1 = (Resolved, ?s1)"
    using markSynced_no_fault[OF d1, of ids] by (simp add: spec_markSynced_idem)
  show ?thesis
    using once twice by (auto simp: os_get_spec_markSynced split: option.splits)
qed

theorem markSynced_idempotent_witness:
  "wf_db sample_db \<and>
   markSynced None [''e1'', ''zz'', ''e2''] sample_db
     = (Resolved, sample_db\<lparr>entries := [sample_E1\<lparr>e_synced := True\<rparr>, sample_E2]\<rparr>) \<and>
   markSynced None [''e1'', ''zz'', ''e2'']
       (sample_db\<lparr>entries := [sample_E1\<lparr>e_synced := True\<rparr>, sample_E2]\<rparr>)
     = (Resolved, sample_db\<lparr>entries := [sample_E1\<lparr>e_synced := True\<rparr>, sample_E2]\<rparr>)"
proof -
  have h: "wf_db sample_db" by (rule sample_db_wf)
  have run: "markSynced None [''e1'', ''zz'', ''e2''] sample_db
     = (Resolved, sample_db\<lparr>entries := [sample_E1\<lparr>e_synced := True\<rparr>, sample_E2]\<rparr>)"
    by (simp add: markSynced_def transaction_def os_get_def os_put_def sample_db_def
        sample_E1_def sample_E2_def)
  from markSynced_idempotent[OF h, of "[''e1'', ''zz'', ''e2'']"] run h show ?thesis
    by auto
qed

text \<open>
  Claim C5. The batch of \<^verbatim>\<open>markSynced\<close> is one transaction. Whatever request fails, the store
  that the call leaves is one of two: the store with every record of the batch marked
  (and then the call resolved), or the store as it was before the call (and then the call
  did not resolve). No fault leaves a store with part of the batch marked.
\<close>

theorem markSynced_atomic:
  assumes "wf_db s" and "markSynced fault ids s = (out, s')"
  shows "(out = Resolved \<and> s' = s\<lparr>entries := spec_markSynced ids (entries s)\<rparr>
            \<and> (\<forall>e \<in> set (entries s'). e_id e \<in> set ids \<longrightarrow> e_synced e))
         \<or> (out \<noteq> Resolved \<and> s' = s)"
  using markSynced_cases[OF wf_db_distinct[OF assms(1)], of fault ids] assms(2)
  by (auto simp: spec_markSynced_def)

theorem markSynced_atomic_witness:
  "wf_db sample_db \<and>
   markSynced (Some 3) [''e1'', ''zz'', ''e2''] sample_db = (Rejected, sample_db) \<and>
   (Rejected \<noteq> Resolved \<and> sample_db = sample_db)"
proof -
  have h: "wf_db sample_db" by (rule sample_db_wf)
  have run: "markSynced (Some 3) [''e1'', ''zz'', ''e2''] sample_db = (Rejected, sample_db)"
    by (simp add: markSynced_def transaction_def os_get_def os_put_def sample_db_def
        sample_E1_def sample_E2_def)
  from markSynced_atomic[OF h run] h run show ?thesis
    by simp
qed

text \<open>
  Claim C10. \<^verbatim>\<open>markSynced\<close> leaves the campaigns as they are and keeps every entry record at
  its place with its id, campaign id, data, creation time and update time; a record whose
  id is not in the list is unchanged altogether.
\<close>

theorem markSynced_frame:
  assumes "wf_db s" and "markSynced fault ids s = (out, s')"
  shows "campaigns s' = campaigns s \<and> length (entries s') = length (entries s) \<and>
         (\<forall>i < length (entries s).
            e_id (entries s' ! i) = e_id (entries s ! i) \<and>
            e_campaignId (entries s' ! i) = e_campaignId (entries s ! i) \<and>
            e_data (entries s' ! i) = e_data (entries s ! i) \<and>
            e_createdAt (entries s' ! i) = e_createdAt (entries s ! i) \<and>
            e_updatedAt (entries s' ! i) = e_updatedAt (entries s ! i) \<and>
            (e_id (entries s ! i) \<notin> set ids \<longrightarrow> entries s' ! i = entries s ! i))"
  using markSynced_cases[OF wf_db_distinct[OF assms(1)], of fault ids] assms(2)
  by (auto simp: spec_markSynced_def)

theorem markSynced_frame_witness:
  "wf_db sample_db \<and>
   markSynced None [''e1'', ''zz''] sample_db
     = (Resolved, sample_db\<lparr>entries := [sample_E1\<lparr>e_synced := True\<rparr>, sample_E2]\<rparr>) \<and>
   campaigns (sample_db\<lparr>entries := [sample_E1\<lparr>e_synced := True\<rparr>, sample_E2]\<rparr>)
     = campaigns sample_db \<and>
   e_data (sample_E1\<lparr>e_synced := True\<rparr>) = e_data sample_E1"
proof -
  have h: "wf_db sample_db" by (rule sample_db_wf)
  have run: "markSynced None [''e1'', ''zz''] sample_db
     = (Resolved, sample_db\<lparr>entries := [sample_E1\<lparr>e_synced := True\<rparr>, sample_E2]\<rparr>)"
    by (simp add: markSynced_def transaction_def os_get_def os_put_def sample_db_def
        sample_E1_def sample_E2_def)
  from markSynced_frame[OF h run] h run show ?thesis
    by simp
qed

section \<open>The cascade of deleteCampaign\<close>

lemma delete_keys_done:
  "delete_keys fault n keys w = (BodyDone, w') \<Longrightarrow>
     w' = w\<lparr>entries := filter (\<lambda>e. e_id e \<notin> set keys) (entries w)\<rparr>"
proof (induction keys arbitrary: n w)
  case Nil
  then show ?case by simp
next
  case (Cons key keys)
  from Cons.prems have
    "delete_keys fault (Suc n) keys (w\<lparr>entries := os_delete e_id key (entries w)\<rparr>)
       = (BodyDone, w')"
    by (simp split: if_splits)
  from Cons.IH[OF this] show ?case
    by (simp add: os_delete_def conj_commute)
qed

lemma delete_keys_end:
  "fst (delete_keys fault n keys w) =
     (case fault of
        None \<Rightarrow> BodyDone
      | Some k \<Rightarrow> if n \<le> k \<and> k < n + length keys then BodyRejected else BodyDone)"
  by (induction keys arbitrary: n w) (auto split: option.splits)

lemma deleteCampaign_resolved:
  assumes "deleteCampaign fault ident s = (Resolved, s')"
  shows "s' = \<lparr>campaigns = os_delete c_id ident (campaigns s),
              entries = filter (\<lambda>e. e_id e \<notin> set (index_getAllKeys ident (entries s)))
                          (entries s)\<rparr>"
proof -
  let ?w = "s\<lparr>campaigns := os_delete c_id ident (campaigns s)\<rparr>"
  from assms have f0: "fault \<noteq> Some 0" and f1: "fault \<noteq> Some 1"
    by (auto simp: deleteCampaign_def transaction_def Let_def split: if_splits)
  with assms
  have "transaction s (delete_keys fault 2 (index_getAllKeys ident (entries ?w)) ?w)
          = (Resolved, s')"
    by (simp add: deleteCampaign_def Let_def)
  then have "delete_keys fault 2 (index_getAllKeys ident (entries ?w)) ?w = (BodyDone, s')"
    by (auto simp: transaction_def split: prod.splits body_end.splits)
  from delete_keys_done[OF this] show ?thesis by simp
qed

lemma deleteCampaign_outcome:
  "deleteCampaign fault ident s =
     (if (case fault of None \<Rightarrow> False
          | Some k \<Rightarrow> k < 2 + length (index_getAllKeys ident (entries s)))
      then (Rejected, s)
      else (Resolved, snd (deleteCampaign fault ident s)))"
proof -
  let ?w = "s\<lparr>campaigns := os_delete c_id ident (campaigns s)\<rparr>"
  let ?keys = "index_getAllKeys ident (entries s)"
  obtain b w' where r: "delete_keys fault 2 ?keys ?w = (b, w')"
    by (cases "delete_keys fault 2 ?keys ?w")
  from delete_keys_end[of fault 2 ?keys ?w] r have b:
    "b = (case fault of None \<Rightarrow> BodyDone
          | Some k \<Rightarrow> if 2 \<le> k \<and> k < 2 + length ?keys then BodyRejected else BodyDone)"
    by simp
  show ?thesis
  proof (cases fault)
    case None
    with r b show ?thesis
      by (simp add: deleteCampaign_def transaction_def Let_def)
  next
    case (Some k)
    with r b show ?thesis
      by (auto simp: deleteCampaign_def transaction_def Let_def)
  qed
qed

text \<open>
  Claim C1. \<^verbatim>\<open>deleteCampaign\<close> is all or nothing. Either it resolves, and then every read of
  the store it leaves shows neither the campaign nor an entry of the campaign; or one of
  its requests failed, it rejects, and the store is the store from before the call. The
  store never holds a state between the two.
\<close>

theorem deleteCampaign_all_or_nothing:
  assumes "deleteCampaign fault ident s = (out, s')"
  shows "(out = Resolved \<and> getCampaign ident s' = None \<and> getEntries ident s' = []
            \<and> (\<forall>c \<in> set (getCampaigns s'). c_id c \<noteq> ident)
            \<and> (\<forall>e \<in> set (entries s'). e_campaignId e \<noteq> ident))
         \<or> (out = Rejected \<and> s' = s
            \<and> (\<exists>k. fault = Some k \<and> k < 2 + length (index_getAllKeys ident (entries s))))"
proof (cases "case fault of None \<Rightarrow> False
              | Some k \<Rightarrow> k < 2 + length (index_getAllKeys ident (entries s))")
  case True
  with deleteCampaign_outcome[of fault ident s] assms show ?thesis
    by (auto split: option.splits)
next
  case False
  with deleteCampaign_outcome[of fault ident s] assms have out: "out = Resolved"
    by (auto split: option.splits)
  with assms have s': "s' = \<lparr>campaigns = os_delete c_id ident (campaigns s),
      entries = filter (\<lambda>e. e_id e \<notin> set (index_getAllKeys ident (entries s))) (entries s)\<rparr>"
    using deleteCampaign_resolved by simp
  have gone: "\<forall>e \<in> set (entries s'). e_campaignId e \<noteq> ident"
    using s' by (auto simp: index_getAllKeys_def index_getAll_def)
  then have "index_getAll ident (entries s') = []"
    by (auto simp: index_getAll_def filter_empty_conv)
  then have "getEntries ident s' = []"
    by (simp add: getEntries_def)
  moreover have "getCampaign ident s' = None"
    using s' by (simp add: getCampaign_def os_get_delete)
  moreover have "\<forall>c \<in> set (getCampaigns s'). c_id c \<noteq> ident"
    using s' by (simp add: getCampaigns_def os_delete_def)
  ultimately show ?thesis using out gone by simp
qed

theorem deleteCampaign_all_or_nothing_witness:
  "deleteCampaign None ''c1'' sample_db = (Resolved, \<lparr>campaigns = [], entries = []\<rparr>) \<and>
   deleteCampaign (Some 3) ''c1'' sample_db = (Rejected, sample_db) \<and>
   getCampaign ''c1'' \<lparr>campaigns = [], entries = []\<rparr> = None \<and>
   getEntries ''c1'' \<lparr>campaigns = [], entries = []\<rparr> = []"
proof -
  have a: "deleteCampaign None ''c1'' sample_db = (Resolved, \<lparr>campaigns = [], entries = []\<rparr>)"
    by (simp add: deleteCampaign_def transaction_def os_delete_def index_getAllKeys_def
        index_getAll_def sample_db_def sample_campaign_def sample_E1_def sample_E2_def)
  have b: "deleteCampaign (Some 3) ''c1'' sample_db = (Rejected, sample_db)"
    by (simp add: deleteCampaign_def transaction_def os_delete_def index_getAllKeys_def
        index_getAll_def sample_db_def sample_campaign_def sample_E1_def sample_E2_def)
  from deleteCampaign_all_or_nothing[OF a] deleteCampaign_all_or_nothing[OF b] a b
  show ?thesis by simp
qed

section \<open>The row serializer\<close>

lemma entryRow_Inr:
  "entryRow p c e = Inr row \<Longrightarrow>
     row = [JStr (e_id e), JStr (iso_text p (e_createdAt e)),
            js_or (data_get (e_data e) ''__loc_lat'') (JStr ''''),
            js_or (data_get (e_data e) ''__loc_lng'') (JStr ''''),
            js_or (data_get (e_data e) ''__loc_acc'') (JStr '''')]
           @ map (fieldCell p e) (c_fields c)"
  by (auto simp: entryRow_def toISOString_def split: if_splits)

lemma entryRow_field:
  "entryRow p c e = Inr row \<Longrightarrow> i < length (c_fields c) \<Longrightarrow>
     row ! (5 + i) = fieldCell p e (c_fields c ! i)"
  by (drule entryRow_Inr) (simp add: nth_append)






text \<open>
  Claim C6. In a serialized row the cell of an image field whose value is a string is that
  string when its length is at most 40000, and the fixed text
  \<^verbatim>\<open>(Image too large for Sheet Cell)\<close> when its length is greater.
\<close>

theorem image_size_guard:
  assumes "entryRow p campaign entry = Inr row"
    and "i < length (c_fields campaign)"
    and "f_type (c_fields campaign ! i) = Image"
    and "data_get (e_data entry) (f_id (c_fields campaign ! i)) = JStr s"
  shows "row ! (5 + i) =
           (if length s \<le> 40000 then JStr s else JStr ''(Image too large for Sheet Cell)'')"
  using entryRow_field[OF assms(1,2)] assms(3,4) by (simp add: fieldCell_def)

theorem image_size_guard_witness:
  "entryRow sample_platform image_campaign (image_entry 40000)
     = Inr [JStr ''e3'', JStr ''1970-01-01T00:00:02.000Z'', JStr [], JStr [], JStr [],
            JStr (replicate 40000 CHR ''A'')] \<and>
   entryRow sample_platform image_campaign (image_entry 40001)
     = Inr [JStr ''e3'', JStr ''1970-01-01T00:00:02.000Z'', JStr [], JStr [], JStr [],
            JStr ''(Image too large for Sheet Cell)''] \<and>
   [JStr ''e3'', JStr ''1970-01-01T00:00:02.000Z'', JStr [], JStr [], JStr [],
    JStr (replicate 40000 CHR ''A'')] ! (5 + 0) = JStr (replicate 40000 CHR ''A'') \<and>
   [JStr ''e3'', JStr ''1970-01-01T00:00:02.000Z'', JStr [], JStr [], JStr [],
    JStr ''(Image too large for Sheet Cell)''] ! (5 + 0)
     = JStr ''(Image too large for Sheet Cell)''"
proof -
  have a: "entryRow sample_platform image_campaign (image_entry 40000)
     = Inr [JStr ''e3'', JStr ''1970-01-01T00:00:02.000Z'', JStr [], JStr [], JStr [],
            JStr (replicate 40000 CHR ''A'')]"
    by (simp add: entryRow_def toISOString_def fieldCell_def data_get_def js_or_def
        sample_platform_def image_campaign_def image_entry_def)
  have b: "entryRow sample_platform image_campaign (image_entry 40001)
     = Inr [JStr ''e3'', JStr ''1970-01-01T00:00:02.000Z'', JStr [], JStr [], JStr [],
            JStr ''(Image too large for Sheet Cell)'']"
    by (simp add: entryRow_def toISOString_def fieldCell_def data_get_def js_or_def
        sample_platform_def image_campaign_def image_entry_def)
  have i: "0 < length (c_fields image_campaign)"
    and t: "f_type (c_fields image_campaign ! 0) = Image"
    by (simp_all add: image_campaign_def)
  have da: "data_get (e_data (image_entry 40000)) (f_id (c_fields image_campaign ! 0))
              = JStr (replicate 40000 CHR ''A'')"
    and db: "data_get (e_data (image_entry 40001)) (f_id (c_fields image_campaign ! 0))
              = JStr (replicate 40001 CHR ''A'')"
    by (simp_all add: data_get_def image_campaign_def image_entry_def)
  from image_size_guard[OF a i t da] image_size_guard[OF b i t db] a b
  show ?thesis by simp
qed



text \<open>
  Claim C8, at an entry captured on the equator. Its data has \<^verbatim>\<open>__loc_lat\<close> = 0, and the
  latitude cell of its row is the empty string, not the number 0; the longitude and
  accuracy cells carry their values.
\<close>

theorem equator_latitude_cell:
  "data_get (e_data equator_entry) ''__loc_lat'' = JNum 0 \<and>
   entryRow sample_platform sample_campaign equator_entry
     = Inr [JStr ''e4'', JStr ''1970-01-01T00:00:02.000Z'', JStr [],
            JNum 0x4052C00000000000, JNum 0x4014000000000000, JStr ''buoy'']"
  by (simp add: entryRow_def toISOString_def fieldCell_def data_get_def js_or_def num_falsy_def
      sample_platform_def sample_campaign_def equator_entry_def)

section \<open>The header step\<close>







section \<open>The sync run and the entry form\<close>

lemma saveCampaign_entries: "entries (snd (saveCampaign fault c s)) = entries s"
  by (simp add: saveCampaign_def transaction_def)

























section \<open>The store invariant\<close>

text \<open>
  Every operation of the store keeps the keys of both object stores unique and in order, and
  the empty database has the property.
\<close>

lemma wf_db_empty: "wf_db \<lparr>campaigns = [], entries = []\<rparr>"
  by (simp add: wf_db_def os_wf_def)

lemma wf_db_saveCampaign: "wf_db s \<Longrightarrow> wf_db (snd (saveCampaign fault c s))"
  by (simp add: saveCampaign_def transaction_def wf_db_def os_wf_put)

lemma wf_db_saveEntry: "wf_db s \<Longrightarrow> wf_db (snd (saveEntry fault e s))"
  by (simp add: saveEntry_def transaction_def wf_db_def os_wf_put)

lemma wf_db_deleteEntry: "wf_db s \<Longrightarrow> wf_db (snd (deleteEntry fault k s))"
  by (simp add: deleteEntry_def transaction_def wf_db_def os_wf_delete)

lemma os_wf_filter: "os_wf kf xs \<Longrightarrow> os_wf kf (filter P xs)"
  unfolding os_wf_def by (simp add: sorted_map sorted_wrt_filter distinct_map_filter)

lemma wf_db_deleteCampaign:
  assumes "wf_db s"
  shows "wf_db (snd (deleteCampaign fault ident s))"
proof (cases "case fault of None \<Rightarrow> False
              | Some k \<Rightarrow> k < 2 + length (index_getAllKeys ident (entries s))")
  case True
  then have "deleteCampaign fault ident s = (Rejected, s)"
    using deleteCampaign_outcome[of fault ident s] by simp
  with assms show ?thesis by simp
next
  case False
  then have "deleteCampaign fault ident s = (Resolved, snd (deleteCampaign fault ident s))"
    using deleteCampaign_outcome[of fault ident s] by simp
  from deleteCampaign_resolved[OF this] assms show ?thesis
    by (simp add: wf_db_def os_wf_delete os_wf_filter)
qed

lemma wf_db_markSynced:
  assumes "wf_db s"
  shows "wf_db (snd (markSynced fault ids s))"
  using markSynced_cases[OF wf_db_distinct[OF assms], of fault ids] assms
  by (auto simp: wf_db_def os_wf_def spec_markSynced_keys simp del: map_map)

text \<open>
  The working copy of a transaction does pass through states in between: at the fault of
  the examples above one entry is already marked, or deleted, in the copy that the abort
  drops.
\<close>

lemma sample_working_copy:
  "markSynced_loop (Some 3) 0 [''e1'', ''zz'', ''e2''] sample_db = (BodyRejected, synced_db)"
  by (simp add: os_get_def os_put_def sample_db_def sample_E1_def sample_E2_def synced_db_def)

lemma sample_delete_working_copy:
  "delete_keys (Some 3) 2 [''e1'', ''e2''] (sample_db\<lparr>campaigns := []\<rparr>)
     = (BodyRejected, \<lparr>campaigns = [], entries = [sample_E2]\<rparr>)"
  by (simp add: os_delete_def sample_db_def sample_E1_def sample_E2_def)

end
